theory Spec2Isabelle
  imports Main
begin

section \<open>Strings of the source language\<close>

text \<open>
  The extractor works on Python \<open>str\<close> values. A string is modelled as a \<open>char list\<close>
  whose elements are the code points U+0000 .. U+00FF, so that \<open>length\<close> counts what
  Python's \<open>len\<close> counts. The character classes below are the ones Python uses on that
  range: \<open>str.isspace\<close> and the regular-expression class \<open>\s\<close> agree on it, the class
  \<open>\d\<close> is the ten ASCII digits, while \<open>str.isdigit\<close> also accepts the three
  superscript digits.
\<close>

definition isspace :: "char \<Rightarrow> bool" where
  "isspace c = (let n = (of_char c :: nat) in
     (9 \<le> n \<and> n \<le> 13) \<or> (28 \<le> n \<and> n \<le> 32) \<or> n = 133 \<or> n = 160)"

definition re_digit :: "char \<Rightarrow> bool" where
  "re_digit c = (let n = (of_char c :: nat) in 48 \<le> n \<and> n \<le> 57)"

definition isdigit :: "char \<Rightarrow> bool" where
  "isdigit c = (let n = (of_char c :: nat) in
     (48 \<le> n \<and> n \<le> 57) \<or> n = 178 \<or> n = 179 \<or> n = 185)"

definition char_isupper :: "char \<Rightarrow> bool" where
  "char_isupper c = (let n = (of_char c :: nat) in
     (65 \<le> n \<and> n \<le> 90) \<or> (192 \<le> n \<and> n \<le> 214) \<or> (216 \<le> n \<and> n \<le> 222))"

definition char_islower :: "char \<Rightarrow> bool" where
  "char_islower c = (let n = (of_char c :: nat) in
     (97 \<le> n \<and> n \<le> 122) \<or> n = 170 \<or> n = 181 \<or> n = 186 \<or>
     (223 \<le> n \<and> n \<le> 246) \<or> (248 \<le> n \<and> n \<le> 255))"

definition char_lower :: "char \<Rightarrow> char" where
  "char_lower c = (if char_isupper c then char_of ((of_char c :: nat) + 32) else c)"

text \<open>\<open>s.isupper()\<close>: no lower-case character and at least one upper-case character.\<close>

definition str_isupper :: "string \<Rightarrow> bool" where
  "str_isupper s = (\<not> list_ex char_islower s \<and> list_ex char_isupper s)"

definition str_lower :: "string \<Rightarrow> string" where
  "str_lower s = map char_lower s"

text \<open>\<open>s.strip()\<close> removes the white space at both ends.\<close>

definition str_strip :: "string \<Rightarrow> string" where
  "str_strip s = rev (dropWhile isspace (rev (dropWhile isspace s)))"

text \<open>\<open>s.split()\<close>: the maximal runs of characters that are not white space.\<close>

fun split_words :: "string \<Rightarrow> string \<Rightarrow> string list" where
  "split_words [] cur = (if cur = [] then [] else [cur])"
| "split_words (c # cs) cur =
     (if isspace c then (if cur = [] then split_words cs [] else cur # split_words cs [])
      else split_words cs (cur @ [c]))"

definition str_split :: "string \<Rightarrow> string list" where
  "str_split s = split_words s []"

text \<open>\<open>text.split('\n')\<close>: the pieces between line feeds; never the empty list.\<close>

fun split_lines :: "string \<Rightarrow> string list" where
  "split_lines [] = [[]]"
| "split_lines (c # cs) =
     (if c = CHR 0x0A then [] # split_lines cs
      else (case split_lines cs of [] \<Rightarrow> [[c]] | l # ls \<Rightarrow> (c # l) # ls))"

text \<open>\<open>needle in hay\<close> for strings: \<open>needle\<close> occurs as a contiguous piece of \<open>hay\<close>.\<close>

fun str_contains :: "string \<Rightarrow> string \<Rightarrow> bool" where
  "str_contains needle [] = (needle = [])"
| "str_contains needle (c # cs) =
     (take (length needle) (c # cs) = needle \<or> str_contains needle cs)"

section \<open>Regular expressions\<close>

text \<open>
  The patterns of the source are all anchored at the start of the line and built from
  single character classes, the greedy quantifiers \<open>?\<close>, \<open>*\<close> and \<open>+\<close> on a class, and
  one group of literal alternatives matched without regard to case. An item of a
  pattern is one of these; a pattern is a list of items.
\<close>

datatype rx =
    Ch "char \<Rightarrow> bool"
  | Opt "char \<Rightarrow> bool"
  | Star "char \<Rightarrow> bool"
  | Plus "char \<Rightarrow> bool"
  | Words "string list"

definition one_of :: "string \<Rightarrow> char \<Rightarrow> bool" where
  "one_of cs c = (c \<in> set cs)"

text \<open>A literal under \<open>re.IGNORECASE\<close> matches a piece of text equal to it up to case.\<close>

definition starts_with_ci :: "string \<Rightarrow> string \<Rightarrow> bool" where
  "starts_with_ci w s = (map char_lower (take (length w) s) = map char_lower w)"

fun first_some :: "'a option list \<Rightarrow> 'a option" where
  "first_some [] = None"
| "first_some (None # xs) = first_some xs"
| "first_some (Some x # xs) = Some x"

text \<open>
  \<open>rmatch p s\<close> is the backtracking search of \<open>re.match\<close>: \<open>Some rest\<close> for the first
  way, in the order the engine tries them (a quantifier takes as much as it can before
  giving back, alternatives are tried from left to right), in which \<open>p\<close> matches a
  prefix of \<open>s\<close>, where \<open>rest\<close> is what follows the match; \<open>None\<close> when there is none.
\<close>

function rmatch :: "rx list \<Rightarrow> string \<Rightarrow> string option" where
  "rmatch [] s = Some s"
| "rmatch (Ch p # r) [] = None"
| "rmatch (Ch p # r) (c # cs) = (if p c then rmatch r cs else None)"
| "rmatch (Opt p # r) [] = rmatch r []"
| "rmatch (Opt p # r) (c # cs) =
     (if p c then (case rmatch r cs of Some t \<Rightarrow> Some t | None \<Rightarrow> rmatch r (c # cs))
      else rmatch r (c # cs))"
| "rmatch (Star p # r) [] = rmatch r []"
| "rmatch (Star p # r) (c # cs) =
     (if p c then (case rmatch (Star p # r) cs of Some t \<Rightarrow> Some t | None \<Rightarrow> rmatch r (c # cs))
      else rmatch r (c # cs))"
| "rmatch (Plus p # r) [] = None"
| "rmatch (Plus p # r) (c # cs) = (if p c then rmatch (Star p # r) cs else None)"
| "rmatch (Words ws # r) s =
     first_some (map (\<lambda>w. if starts_with_ci w s then rmatch r (drop (length w) s) else None) ws)"
  by pat_completeness auto
termination
  by (relation "measures [\<lambda>(p, s). length p + length s, \<lambda>(p, s). length p]") auto

text \<open>\<open>re.match(p, s)\<close> as a truth value, and \<open>re.sub(p, '', s)\<close> for an anchored pattern
  that cannot match the empty string: the match, if any, is at the start and is the only one.\<close>

definition re_match :: "rx list \<Rightarrow> string \<Rightarrow> bool" where
  "re_match p s = (rmatch p s \<noteq> None)"

definition re_sub_empty :: "rx list \<Rightarrow> string \<Rightarrow> string" where
  "re_sub_empty p s = (case rmatch p s of None \<Rightarrow> s | Some rest \<Rightarrow> rest)"

section \<open>Line classifier\<close>

text \<open>
  The exceptions that matter: the IndexError of an index outside a string or a list, and
  any exception raised by the PDF library or the file system (\<open>ReaderError\<close>).
\<close>

datatype error = IndexError | ReaderError

text \<open>\<open>xs[i]\<close> for an index that is not negative: an IndexError outside the list.\<close>

definition item :: "'a list \<Rightarrow> nat \<Rightarrow> error + 'a" where
  "item xs i = (if i < length xs then Inr (xs ! i) else Inl IndexError)"

definition topic_indicators :: "string list" where
  "topic_indicators = [''chapter'', ''unit'', ''section'', ''topic'', ''part'']"

text \<open>
  \<open>is_topic\<close> reads \<open>line[0]\<close> in its third test, which raises on the empty string, so
  its result is an error or a truth value.
\<close>

definition is_topic :: "string \<Rightarrow> error + bool" where
  "is_topic line =
     (if str_isupper line \<and> length (str_split line) \<ge> 2 then Inr True
      else if list_ex (\<lambda>indicator. str_contains indicator (str_lower line)) topic_indicators
      then Inr True
      else if length line < 50 \<and> \<not> list_ex (\<lambda>ch. ch \<in> set line) ''?()'' then
        (case item line 0 of
           Inl e \<Rightarrow> Inl e
         | Inr c \<Rightarrow> if \<not> isdigit c \<and> CHR '':'' \<notin> set line then Inr True else Inr False)
      else Inr False)"

definition question_patterns :: "rx list list" where
  "question_patterns =
     [[Words [''Q''], Plus re_digit, Ch (one_of ''.:)'')],
      [Words [''Q''], Ch (one_of ''.:)'')],
      [Plus re_digit, Ch (one_of ''.:)'')],
      [Words [''Question''], Star isspace, Star re_digit, Ch (one_of ''.:'')]]"

definition is_question :: "string \<Rightarrow> bool" where
  "is_question line =
     (if list_ex (\<lambda>pattern. re_match pattern line) question_patterns then True
      else if CHR ''?'' \<in> set line then True
      else False)"

definition option_patterns :: "rx list list" where
  "option_patterns =
     [[Opt (one_of ''(''), Ch (one_of ''ABCDEFabcdef''), Ch (one_of '').'')],
      [Opt (one_of ''(''), Plus re_digit, Ch (one_of '').'')],
      [Ch (one_of ''[''), Ch (one_of ''ABCDEFabcdef''), Ch (one_of '']'')]]"

definition is_option :: "string \<Rightarrow> bool" where
  "is_option line = list_ex (\<lambda>pattern. re_match pattern line) option_patterns"

definition answer_indicators :: "string list" where
  "answer_indicators =
     [''answer'', ''correct answer'', ''correct option'',
      ''ans:'', ''ans.'', ''solution'', ''correct:'']"

definition is_answer :: "string \<Rightarrow> bool" where
  "is_answer line =
     (let line_lower = str_lower line
      in list_ex (\<lambda>indicator. str_contains indicator line_lower) answer_indicators)"

section \<open>Text normalizer\<close>

definition topic_prefix :: "rx list" where
  "topic_prefix =
     [Words [''chapter'', ''unit'', ''section'', ''topic'', ''part''],
      Star isspace, Star re_digit, Opt (one_of '':.''), Star isspace]"

definition clean_topic :: "string \<Rightarrow> string" where
  "clean_topic line = str_strip (re_sub_empty topic_prefix line)"

definition question_prefix :: "rx list" where
  "question_prefix =
     [Words [''Q'', ''Question''], Star isspace, Star re_digit, Ch (one_of ''.:)''),
      Star isspace]"

definition number_prefix :: "rx list" where
  "number_prefix = [Plus re_digit, Ch (one_of ''.:)''), Star isspace]"

definition clean_question :: "string \<Rightarrow> string" where
  "clean_question line =
     str_strip (re_sub_empty number_prefix (re_sub_empty question_prefix line))"

definition option_prefix :: "rx list" where
  "option_prefix =
     [Opt (one_of ''([''), Ch (\<lambda>c. one_of ''ABCDEFabcdef'' c \<or> re_digit c),
      Ch (one_of '').]''), Star isspace]"

definition clean_option :: "string \<Rightarrow> string" where
  "clean_option line = str_strip (re_sub_empty option_prefix line)"

definition answer_prefix :: "rx list" where
  "answer_prefix =
     [Words [''answer'', ''correct answer'', ''correct option'', ''ans'', ''solution'',
             ''correct''],
      Opt (one_of '':.''), Star isspace]"

definition clean_answer :: "string \<Rightarrow> string" where
  "clean_answer line = str_strip (re_sub_empty answer_prefix line)"

section \<open>Data model\<close>

text \<open>The dictionaries the extractor builds have fixed keys, so they are records.\<close>

record pdf_image =
  page :: nat
  index :: nat
  path :: string

record mcq =
  question :: string
  options :: "string list"
  answer :: "string option"
  image_ref :: "string option"
  video_link :: "string option"

record topic_record =
  topic :: string
  questions :: "mcq list"

section \<open>Committing a question\<close>

text \<open>\<open>xs[-1]['questions'].append(q)\<close>: an IndexError on the empty list.\<close>

definition append_to_last :: "topic_record list \<Rightarrow> mcq \<Rightarrow> error + topic_record list" where
  "append_to_last structured_data q =
     (if structured_data = [] then Inl IndexError
      else Inr (butlast structured_data @
                [(last structured_data)\<lparr>questions := questions (last structured_data) @ [q]\<rparr>]))"

text \<open>\<open>topic or 'General Questions'\<close>: the literal replaces \<open>None\<close> and the empty string.\<close>

definition topic_or_general :: "string option \<Rightarrow> string" where
  "topic_or_general t =
     (case t of None \<Rightarrow> ''General Questions''
      | Some n \<Rightarrow> if n = [] then ''General Questions'' else n)"

text \<open>
  \<open>save_question\<close> changes the question and the output list in place; the model returns
  the new output list, whose last record ends with the changed question.
\<close>

definition save_question ::
  "topic_record list \<Rightarrow> string option \<Rightarrow> mcq \<Rightarrow> string list \<Rightarrow> pdf_image list \<Rightarrow> string list
   \<Rightarrow> nat \<Rightarrow> error + topic_record list" where
  "save_question structured_data topic_name q opts images links image_index =
     (let q1 = q\<lparr>options := opts\<rparr> in
      case (if image_index < length images
            then (case item images image_index of
                    Inl e \<Rightarrow> Inl e
                  | Inr im \<Rightarrow> Inr (q1\<lparr>image_ref := Some (path im)\<rparr>))
            else Inr q1) of
        Inl e \<Rightarrow> Inl e
      | Inr q2 \<Rightarrow>
      case (if image_index < length links
            then (case item links image_index of
                    Inl e \<Rightarrow> Inl e
                  | Inr l \<Rightarrow> Inr (q2\<lparr>video_link := Some l\<rparr>))
            else Inr q2) of
        Inl e \<Rightarrow> Inl e
      | Inr q3 \<Rightarrow>
      let sd = (if structured_data = []
                then structured_data @
                     [\<lparr>topic = topic_or_general topic_name, questions = []\<rparr>]
                else structured_data)
      in append_to_last sd q3)"

section \<open>Assembly state machine\<close>

text \<open>The local variables of \<open>parse_mcqs\<close> that live across iterations of its loop.\<close>

record parser_state =
  structured_data :: "topic_record list"
  current_topic :: "string option"
  current_question :: "mcq option"
  current_options :: "string list"
  question_counter :: nat
  image_counter :: nat

definition initial_state :: parser_state where
  "initial_state =
     \<lparr>structured_data = [], current_topic = None, current_question = None,
      current_options = [], question_counter = 0, image_counter = 0\<rparr>"

text \<open>\<open>current_options[-1] += " " + line\<close>: an IndexError on the empty list.\<close>

definition extend_last :: "string list \<Rightarrow> string \<Rightarrow> error + string list" where
  "extend_last opts line =
     (if opts = [] then Inl IndexError
      else Inr (butlast opts @ [last opts @ '' '' @ line]))"

text \<open>
  One iteration of the loop over the lines, on the raw line. The tests for an option, an
  answer and a continuation all begin with \<open>current_question and\<close>, so the model asks
  once whether a question is open before them.
\<close>

definition loop_body ::
  "pdf_image list \<Rightarrow> string list \<Rightarrow> parser_state \<Rightarrow> string \<Rightarrow> error + parser_state" where
  "loop_body images links s raw =
     (let line = str_strip raw in
      if line = [] then Inr s
      else
        case is_topic line of
          Inl e \<Rightarrow> Inl e
        | Inr True \<Rightarrow>
            (case (case current_question s of
                     Some q \<Rightarrow>
                       (case save_question (structured_data s) (current_topic s) q
                               (current_options s) images links (image_counter s) of
                          Inl e \<Rightarrow> Inl e
                        | Inr sd \<Rightarrow>
                            Inr (s\<lparr>structured_data := sd, current_question := None,
                                   current_options := []\<rparr>))
                   | None \<Rightarrow> Inr s) of
               Inl e \<Rightarrow> Inl e
             | Inr s1 \<Rightarrow>
                 Inr (s1\<lparr>current_topic := Some (clean_topic line),
                         structured_data := structured_data s1 @
                           [\<lparr>topic = clean_topic line, questions = []\<rparr>]\<rparr>))
        | Inr False \<Rightarrow>
            if is_question line then
              (case (case current_question s of
                       Some q \<Rightarrow>
                         (case save_question (structured_data s) (current_topic s) q
                                 (current_options s) images links (image_counter s) of
                            Inl e \<Rightarrow> Inl e
                          | Inr sd \<Rightarrow>
                              Inr (s\<lparr>structured_data := sd,
                                     image_counter := image_counter s + 1\<rparr>))
                     | None \<Rightarrow> Inr s) of
                 Inl e \<Rightarrow> Inl e
               | Inr s1 \<Rightarrow>
                   Inr (s1\<lparr>current_question :=
                             Some \<lparr>question = clean_question line, options = [],
                                   answer = None, image_ref = None, video_link = None\<rparr>,
                           current_options := [],
                           question_counter := question_counter s1 + 1\<rparr>))
            else
              (case current_question s of
                 None \<Rightarrow> Inr s
               | Some q \<Rightarrow>
                   if is_option line then
                     Inr (s\<lparr>current_options := current_options s @ [clean_option line]\<rparr>)
                   else if is_answer line then
                     Inr (s\<lparr>current_question := Some (q\<lparr>answer := Some (clean_answer line)\<rparr>)\<rparr>)
                   else if \<not> is_option line \<and> \<not> is_answer line then
                     (if current_options s \<noteq> [] then
                        (case extend_last (current_options s) line of
                           Inl e \<Rightarrow> Inl e
                         | Inr opts \<Rightarrow> Inr (s\<lparr>current_options := opts\<rparr>))
                      else if question q \<noteq> [] then
                        Inr (s\<lparr>current_question :=
                                 Some (q\<lparr>question := question q @ '' '' @ line\<rparr>)\<rparr>)
                      else Inr s)
                   else Inr s))"

fun parse_loop ::
  "pdf_image list \<Rightarrow> string list \<Rightarrow> parser_state \<Rightarrow> string list \<Rightarrow> error + parser_state" where
  "parse_loop images links s [] = Inr s"
| "parse_loop images links s (raw # rest) =
     (case loop_body images links s raw of
        Inl e \<Rightarrow> Inl e
      | Inr s' \<Rightarrow> parse_loop images links s' rest)"

text \<open>After the loop: the question still open, if any, is committed.\<close>

definition final_commit ::
  "pdf_image list \<Rightarrow> string list \<Rightarrow> parser_state \<Rightarrow> error + topic_record list" where
  "final_commit images links s =
     (case current_question s of
        Some q \<Rightarrow>
          save_question (structured_data s) (current_topic s) q (current_options s)
            images links (image_counter s)
      | None \<Rightarrow> Inr (structured_data s))"

text \<open>Then the topics with no questions are removed.\<close>

definition drop_empty_topics :: "topic_record list \<Rightarrow> topic_record list" where
  "drop_empty_topics sd =
     (let sd' = filter (\<lambda>t. questions t \<noteq> []) sd
      in if sd' = [] then [] else sd')"

definition parse_lines ::
  "string list \<Rightarrow> pdf_image list \<Rightarrow> string list \<Rightarrow> error + topic_record list" where
  "parse_lines lines images links =
     (case parse_loop images links initial_state lines of
        Inl e \<Rightarrow> Inl e
      | Inr s \<Rightarrow>
          (case final_commit images links s of
             Inl e \<Rightarrow> Inl e
           | Inr sd \<Rightarrow> Inr (drop_empty_topics sd)))"

definition parse_mcqs ::
  "string \<Rightarrow> pdf_image list \<Rightarrow> string list \<Rightarrow> error + topic_record list" where
  "parse_mcqs text images links = parse_lines (split_lines text) images links"

section \<open>Reading the document\<close>

text \<open>
  The PDF library is outside the repository. A page is modelled by what its calls give:
  \<open>get_text\<close> is the outcome of \<open>page.get_text()\<close>; \<open>get_images\<close> the outcome of
  \<open>page.get_images(full=True)\<close>, each entry being the outcome of extracting that image
  and writing its file (the extension on success); \<open>get_links\<close> the outcome of
  \<open>page.get_links()\<close>, each entry being the link's \<open>uri\<close> when it has one. A document
  is its pages and the outcome of \<open>doc.close()\<close>.
\<close>

record pdf_page =
  get_text :: "error + string"
  get_images :: "error + (error + string) list"
  get_links :: "error + string option list"

record pdf_document =
  pages :: "pdf_page list"
  close :: "error + unit"

text \<open>\<open>str(n)\<close> for a natural number, and \<open>os.path.join\<close> of two components (POSIX).\<close>

fun str_of_nat :: "nat \<Rightarrow> string" where
  "str_of_nat n =
     (if n < 10 then [char_of (48 + n)]
      else str_of_nat (n div 10) @ [char_of (48 + n mod 10)])"

declare str_of_nat.simps [simp del]

definition path_join :: "string \<Rightarrow> string \<Rightarrow> string" where
  "path_join a b =
     (case b of
        [] \<Rightarrow> (if a = [] \<or> last a = CHR ''/'' then a else a @ ''/'')
      | c # cs \<Rightarrow>
          if c = CHR ''/'' then b
          else if a = [] \<or> last a = CHR ''/'' then a @ b
          else a @ ''/'' @ b)"

text \<open>The loop of \<open>extract_images_from_page\<close>: an exception ends it, and the handler
  returns the images saved so far.\<close>

fun save_images ::
  "nat \<Rightarrow> string \<Rightarrow> nat \<Rightarrow> (error + string) list \<Rightarrow> pdf_image list \<Rightarrow> pdf_image list" where
  "save_images page_num temp_dir img_index [] images = images"
| "save_images page_num temp_dir img_index (Inl e # rest) images = images"
| "save_images page_num temp_dir img_index (Inr image_ext # rest) images =
     save_images page_num temp_dir (img_index + 1) rest
       (images @
        [\<lparr>page = page_num, index = img_index,
          path = path_join temp_dir
                   (''page'' @ str_of_nat page_num @ ''_img'' @ str_of_nat img_index @
                    ''.'' @ image_ext)\<rparr>])"

definition extract_images_from_page :: "pdf_page \<Rightarrow> nat \<Rightarrow> string \<Rightarrow> pdf_image list" where
  "extract_images_from_page page_obj page_num temp_dir =
     (case get_images page_obj of
        Inl e \<Rightarrow> []
      | Inr image_list \<Rightarrow> save_images page_num temp_dir 0 image_list [])"

definition link_keywords :: "string list" where
  "link_keywords = [''youtube'', ''video'', ''watch'', ''explanation'']"

fun keep_links :: "string option list \<Rightarrow> string list" where
  "keep_links [] = []"
| "keep_links (None # rest) = keep_links rest"
| "keep_links (Some uri # rest) =
     (if list_ex (\<lambda>keyword. str_contains keyword (str_lower uri)) link_keywords
      then uri # keep_links rest else keep_links rest)"

definition extract_links_from_page :: "pdf_page \<Rightarrow> string list" where
  "extract_links_from_page page_obj =
     (case get_links page_obj of
        Inl e \<Rightarrow> []
      | Inr link_list \<Rightarrow> keep_links link_list)"

text \<open>The loop over the pages: the text, the images and the links collected so far.\<close>

fun read_pages ::
  "string \<Rightarrow> nat \<Rightarrow> pdf_page list \<Rightarrow> string \<times> pdf_image list \<times> string list
   \<Rightarrow> error + string \<times> pdf_image list \<times> string list" where
  "read_pages temp_dir page_num [] acc = Inr acc"
| "read_pages temp_dir page_num (page_obj # rest) (full_text, images, links) =
     (case get_text page_obj of
        Inl e \<Rightarrow> Inl e
      | Inr t \<Rightarrow>
          read_pages temp_dir (page_num + 1) rest
            (full_text @ t,
             images @ extract_images_from_page page_obj page_num temp_dir,
             links @ extract_links_from_page page_obj))"

text \<open>
  \<open>extract_mcqs_from_pdf\<close>, given the outcome of \<open>fitz.open(pdf_path)\<close>. Its whole body
  is inside \<open>try\<close>, and the handler of \<open>Exception\<close> logs and returns the empty list.
\<close>

definition extract_mcqs_from_pdf ::
  "error + pdf_document \<Rightarrow> string \<Rightarrow> error + topic_record list" where
  "extract_mcqs_from_pdf opened temp_dir =
     (case (case opened of
              Inl e \<Rightarrow> Inl e
            | Inr doc \<Rightarrow>
                (case read_pages temp_dir 0 (pages doc) ([], [], []) of
                   Inl e \<Rightarrow> Inl e
                 | Inr (full_text, images, links) \<Rightarrow>
                     (case close doc of
                        Inl e \<Rightarrow> Inl e
                      | Inr u \<Rightarrow> parse_mcqs full_text images links))) of
        Inl e \<Rightarrow> Inr []
      | Inr result \<Rightarrow> Inr result)"

section \<open>No step of the parser fails\<close>

lemma is_topic_total: "line \<noteq> [] \<Longrightarrow> \<exists>b. is_topic line = Inr b"
  by (auto simp: is_topic_def item_def)

text \<open>The value of a commit, written out: it never fails.\<close>

lemma save_question_Inr:
  "save_question sd t q opts imgs lnks k =
     Inr (butlast (if sd = [] then [\<lparr>topic = topic_or_general t, questions = []\<rparr>] else sd) @
          [(last (if sd = [] then [\<lparr>topic = topic_or_general t, questions = []\<rparr>] else sd))
             \<lparr>questions :=
                questions (last (if sd = [] then [\<lparr>topic = topic_or_general t, questions = []\<rparr>] else sd)) @
                [q\<lparr>options := opts,
                   image_ref := (if k < length imgs then Some (path (imgs ! k)) else image_ref q),
                   video_link := (if k < length lnks then Some (lnks ! k) else video_link q)\<rparr>]\<rparr>])"
  by (simp add: save_question_def item_def append_to_last_def Let_def)

lemma loop_body_total: "\<exists>s'. loop_body imgs lnks s raw = Inr s'"
proof (cases "str_strip raw = []")
  case True
  then show ?thesis by (simp add: loop_body_def)
next
  case False
  then obtain b where b: "is_topic (str_strip raw) = Inr b"
    using is_topic_total by blast
  show ?thesis
    using False b
    by (cases b; cases "current_question s")
       (auto simp: loop_body_def Let_def save_question_Inr extend_last_def)
qed

lemma parse_loop_total: "\<exists>s'. parse_loop imgs lnks s ls = Inr s'"
proof (induction ls arbitrary: s)
  case Nil
  show ?case by simp
next
  case (Cons l ls)
  obtain s1 where "loop_body imgs lnks s l = Inr s1"
    using loop_body_total by blast
  then show ?case using Cons.IH [of s1] by simp
qed

lemma final_commit_total: "\<exists>r. final_commit imgs lnks s = Inr r"
  by (cases "current_question s") (auto simp: final_commit_def save_question_Inr)

lemma parse_lines_total: "\<exists>r. parse_lines ls imgs lnks = Inr r"
proof -
  obtain s where s: "parse_loop imgs lnks initial_state ls = Inr s"
    using parse_loop_total by blast
  obtain sd where "final_commit imgs lnks s = Inr sd"
    using final_commit_total by blast
  with s show ?thesis
    by (simp add: parse_lines_def)
qed

lemma parse_loop_append:
  "parse_loop imgs lnks s (xs @ ys) =
     (case parse_loop imgs lnks s xs of Inl e \<Rightarrow> Inl e | Inr s' \<Rightarrow> parse_loop imgs lnks s' ys)"
  by (induction xs arbitrary: s) (auto split: sum.splits)

text \<open>
  Claim C10. \<open>parse_mcqs\<close> returns a result on every text and every pair of asset lists.
  In the model the read of \<open>line[0]\<close> in \<open>is_topic\<close>, the read of the last option in the
  continuation branch, the reads of \<open>images[i]\<close> and \<open>links[i]\<close> and the read of the
  last topic record are all able to fail with an IndexError; none of them does, because
  blank lines are skipped before \<open>is_topic\<close> is called and every other read is guarded.
\<close>

theorem parse_mcqs_total: "\<exists>r. parse_mcqs text imgs lnks = Inr r"
  using parse_lines_total [of "split_lines text" imgs lnks] by (simp add: parse_mcqs_def)

theorem parse_mcqs_total_witness:
  "is_topic [] = Inl IndexError \<and> (\<exists>r. parse_mcqs ''\<newline>  \<newline>1.\<newline>x: y'' [] [] = Inr r)"
proof -
  have "is_topic [] = Inl IndexError"
    by code_simp
  then show ?thesis
    using parse_mcqs_total [of "''\<newline>  \<newline>1.\<newline>x: y''" "[]" "[]"] by blast
qed

section \<open>Documents without a question\<close>

lemma loop_body_no_question:
  assumes "current_question s = None"
    and "\<forall>t \<in> set (structured_data s). questions t = []"
    and "\<not> (str_strip raw \<noteq> [] \<and> is_topic (str_strip raw) = Inr False \<and>
            is_question (str_strip raw))"
  shows "\<exists>s'. loop_body imgs lnks s raw = Inr s' \<and> current_question s' = None \<and>
           (\<forall>t \<in> set (structured_data s'). questions t = [])"
proof (cases "str_strip raw = []")
  case True
  with assms show ?thesis by (simp add: loop_body_def)
next
  case False
  then obtain b where b: "is_topic (str_strip raw) = Inr b"
    using is_topic_total by blast
  show ?thesis
    using False b assms by (cases b) (auto simp: loop_body_def Let_def)
qed

lemma parse_loop_no_question:
  assumes "current_question s = None"
    and "\<forall>t \<in> set (structured_data s). questions t = []"
    and "\<forall>raw \<in> set ls. \<not> (str_strip raw \<noteq> [] \<and> is_topic (str_strip raw) = Inr False \<and>
            is_question (str_strip raw))"
  shows "\<exists>s'. parse_loop imgs lnks s ls = Inr s' \<and> current_question s' = None \<and>
           (\<forall>t \<in> set (structured_data s'). questions t = [])"
  using assms
proof (induction ls arbitrary: s)
  case Nil
  then show ?case by simp
next
  case (Cons l ls)
  from Cons.prems obtain s1 where s1: "loop_body imgs lnks s l = Inr s1"
    "current_question s1 = None" "\<forall>t \<in> set (structured_data s1). questions t = []"
    using loop_body_no_question [of s l imgs lnks] by auto
  from Cons.IH [OF s1(2) s1(3)] Cons.prems(3) s1(1) show ?case by simp
qed

text \<open>
  Claim C8. When no line of the text is classified as a Question, that is, no line is
  non-blank after stripping, fails the Topic test (which comes first) and passes the
  Question test, the result of \<open>parse_mcqs\<close> is the empty list.
\<close>

theorem no_question_empty_output:
  assumes "\<forall>raw \<in> set (split_lines text).
             \<not> (str_strip raw \<noteq> [] \<and> is_topic (str_strip raw) = Inr False \<and>
                is_question (str_strip raw))"
  shows "parse_mcqs text imgs lnks = Inr []"
proof -
  obtain s where s: "parse_loop imgs lnks initial_state (split_lines text) = Inr s"
    "current_question s = None" "\<forall>t \<in> set (structured_data s). questions t = []"
    using parse_loop_no_question [of initial_state "split_lines text" imgs lnks] assms
    by (auto simp: initial_state_def)
  then have "filter (\<lambda>t. questions t \<noteq> []) (structured_data s) = []"
    by (simp add: filter_empty_conv)
  with s show ?thesis
    by (simp add: parse_mcqs_def parse_lines_def final_commit_def drop_empty_topics_def)
qed

theorem no_question_empty_output_witness:
  "list_all (\<lambda>raw. \<not> (str_strip raw \<noteq> [] \<and> is_topic (str_strip raw) = Inr False \<and>
                         is_question (str_strip raw)))
     (split_lines ''UNIT ONE\<newline>x: y\<newline>\<newline>TOPIC TWO'') \<and>
   parse_mcqs ''UNIT ONE\<newline>x: y\<newline>\<newline>TOPIC TWO'' [] [] = Inr []"
proof -
  have l: "list_all (\<lambda>raw. \<not> (str_strip raw \<noteq> [] \<and> is_topic (str_strip raw) = Inr False \<and>
                         is_question (str_strip raw)))
     (split_lines ''UNIT ONE\<newline>x: y\<newline>\<newline>TOPIC TWO'')"
    by code_simp
  then have h: "\<forall>raw \<in> set (split_lines ''UNIT ONE\<newline>x: y\<newline>\<newline>TOPIC TWO'').
      \<not> (str_strip raw \<noteq> [] \<and> is_topic (str_strip raw) = Inr False \<and>
         is_question (str_strip raw))"
    by (simp only: list_all_iff)
  show ?thesis
    using l no_question_empty_output [OF h, of "[]" "[]"] by blast
qed

section \<open>Asset correlation at a commit\<close>

text \<open>The open question never carries an image or a link before it is committed.\<close>

lemma loop_body_fresh:
  assumes "loop_body imgs lnks s raw = Inr s'"
    and "\<forall>q. current_question s = Some q \<longrightarrow> image_ref q = None \<and> video_link q = None"
  shows "\<forall>q. current_question s' = Some q \<longrightarrow> image_ref q = None \<and> video_link q = None"
proof (cases "str_strip raw = []")
  case True
  with assms show ?thesis by (simp add: loop_body_def)
next
  case False
  then obtain b where b: "is_topic (str_strip raw) = Inr b"
    using is_topic_total by blast
  show ?thesis
    using False b assms
    by (cases b; cases "current_question s")
       (auto simp: loop_body_def Let_def save_question_Inr extend_last_def split: if_splits)
qed

lemma parse_loop_fresh:
  assumes "parse_loop imgs lnks s ls = Inr s'"
    and "\<forall>q. current_question s = Some q \<longrightarrow> image_ref q = None \<and> video_link q = None"
  shows "\<forall>q. current_question s' = Some q \<longrightarrow> image_ref q = None \<and> video_link q = None"
  using assms
proof (induction ls arbitrary: s)
  case Nil
  then show ?case by simp
next
  case (Cons l ls)
  from Cons.prems(1) obtain s1 where s1: "loop_body imgs lnks s l = Inr s1"
    "parse_loop imgs lnks s1 ls = Inr s'"
    by (auto split: sum.splits)
  from loop_body_fresh [OF s1(1) Cons.prems(2)] Cons.IH [OF s1(2)] show ?case by blast
qed

text \<open>
  Claim C4. A commit of the open question with index \<open>k\<close>, in any state the parser
  reaches, does not fail; the committed question is the last question of the last topic
  record, its image is the path of \<open>images[k]\<close> when \<open>k < len(images)\<close> and unset
  otherwise, its link is \<open>links[k]\<close> when \<open>k < len(links)\<close> and unset otherwise, each
  independently of the other; its text and answer are those of the open question and
  its options are the accumulated options, whatever the lengths of the asset lists.
\<close>

theorem commit_correlates_by_index:
  assumes "parse_loop images links initial_state ls = Inr s"
    and "current_question s = Some q"
  shows "\<exists>sd. save_question (structured_data s) (current_topic s) q (current_options s)
                images links k = Inr sd \<and>
              sd \<noteq> [] \<and> questions (last sd) \<noteq> [] \<and>
              last (questions (last sd)) =
                \<lparr>question = question q, options = current_options s, answer = answer q,
                 image_ref = (if k < length images then Some (path (images ! k)) else None),
                 video_link = (if k < length links then Some (links ! k) else None)\<rparr>"
proof -
  have "image_ref q = None \<and> video_link q = None"
    using parse_loop_fresh [OF assms(1)] assms(2) by (simp add: initial_state_def)
  then show ?thesis
    by (simp add: save_question_Inr)
qed

theorem commit_correlates_by_index_witness:
  "parse_loop [\<lparr>page = 0, index = 0, path = ''p0.png''\<rparr>] [] initial_state [''1. a?'', ''(a) x''] =
     Inr \<lparr>structured_data = [], current_topic = None,
          current_question = Some \<lparr>question = ''a?'', options = [], answer = None,
                                   image_ref = None, video_link = None\<rparr>,
          current_options = [''x''], question_counter = 1, image_counter = 0\<rparr> \<and>
   (\<exists>sd. save_question [] None
            \<lparr>question = ''a?'', options = [], answer = None, image_ref = None, video_link = None\<rparr>
            [''x''] [\<lparr>page = 0, index = 0, path = ''p0.png''\<rparr>] [] 1 = Inr sd \<and>
          sd \<noteq> [] \<and> questions (last sd) \<noteq> [] \<and>
          last (questions (last sd)) =
            \<lparr>question = ''a?'', options = [''x''], answer = None, image_ref = None,
             video_link = None\<rparr>)"
proof -
  have h: "parse_loop [\<lparr>page = 0, index = 0, path = ''p0.png''\<rparr>] [] initial_state [''1. a?'', ''(a) x''] =
     Inr \<lparr>structured_data = [], current_topic = None,
          current_question = Some \<lparr>question = ''a?'', options = [], answer = None,
                                   image_ref = None, video_link = None\<rparr>,
          current_options = [''x''], question_counter = 1, image_counter = 0\<rparr>"
    by code_simp
  show ?thesis
    using h commit_correlates_by_index [OF h, of _ 1] by simp
qed

section \<open>The end-to-end scenario\<close>

text \<open>
  Claim C3. On the six lines of the scenario (joined by line feeds, which
  \<open>text.split('\n')\<close> takes apart again) and empty asset lists, \<open>parse_mcqs\<close> returns
  one topic record named \<open>ONE KINEMATICS\<close> holding one question with text
  \<open>What is speed?\<close>, the three options in their order, the answer \<open>b\<close>, and neither
  image nor link.
\<close>

theorem end_to_end_scenario:
  "parse_mcqs ''UNIT ONE KINEMATICS\<newline>Q1. What is speed?\<newline>(a) Distance\<newline>(b) Distance/Time\<newline>(c) Time/Distance\<newline>Answer: b'' [] [] =
     Inr [\<lparr>topic = ''ONE KINEMATICS'',
           questions =
             [\<lparr>question = ''What is speed?'',
               options = [''Distance'', ''Distance/Time'', ''Time/Distance''],
               answer = Some ''b'', image_ref = None, video_link = None\<rparr>]\<rparr>] \<and>
   split_lines ''UNIT ONE KINEMATICS\<newline>Q1. What is speed?\<newline>(a) Distance\<newline>(b) Distance/Time\<newline>(c) Time/Distance\<newline>Answer: b'' =
     [''UNIT ONE KINEMATICS'', ''Q1. What is speed?'', ''(a) Distance'', ''(b) Distance/Time'',
      ''(c) Time/Distance'', ''Answer: b'']"
  by code_simp

section \<open>The commit index\<close>

text \<open>
  Claim C1 says that the k-th committed question is correlated with index k, so that no
  two committed questions share an index. The branch for a Question line adds one to
  \<open>image_counter\<close> after its commit; the branch for a Topic line commits and does not.
  On the three lines below both questions are committed with index 0: the first by the
  Topic line, the second at the end of the input, and the second image and link are
  never used.
\<close>

theorem topic_commit_reuses_index:
  "parse_mcqs ''Q1. a?\<newline>TOPIC TWO\<newline>Q2. b?''
     [\<lparr>page = 0, index = 0, path = ''p0.png''\<rparr>, \<lparr>page = 0, index = 1, path = ''p1.png''\<rparr>]
     [''http://video/0'', ''http://video/1''] =
   Inr [\<lparr>topic = ''General Questions'',
         questions = [\<lparr>question = ''a?'', options = [], answer = None,
                       image_ref = Some ''p0.png'', video_link = Some ''http://video/0''\<rparr>]\<rparr>,
        \<lparr>topic = ''TWO'',
         questions = [\<lparr>question = ''b?'', options = [], answer = None,
                       image_ref = Some ''p0.png'', video_link = Some ''http://video/0''\<rparr>]\<rparr>]"
  by code_simp

section \<open>Answer lines\<close>

text \<open>
  Claim C2 as stated (the first Answer line wins) fails: with two Answer lines the stored
  answer is the normalized text of the second.
\<close>

theorem first_answer_wins_counterexample:
  "parse_mcqs ''Q1. x?\<newline>Answer: a\<newline>Answer: b'' [] [] =
     Inr [\<lparr>topic = ''General Questions'',
           questions = [\<lparr>question = ''x?'', options = [], answer = Some ''b'',
                         image_ref = None, video_link = None\<rparr>]\<rparr>] \<and>
   clean_answer ''Answer: a'' = ''a'' \<and> clean_answer ''Answer: b'' = ''b''"
  by code_simp

lemma loop_body_while_open:
  assumes "current_question s = Some q"
    and "str_strip raw = [] \<or>
         (is_topic (str_strip raw) = Inr False \<and> \<not> is_question (str_strip raw))"
  shows "\<exists>s' q'. loop_body imgs lnks s raw = Inr s' \<and> current_question s' = Some q' \<and>
           answer q' =
             (if str_strip raw \<noteq> [] \<and> \<not> is_option (str_strip raw) \<and> is_answer (str_strip raw)
              then Some (clean_answer (str_strip raw)) else answer q)"
  using assms by (auto simp: loop_body_def Let_def extend_last_def)

lemma parse_loop_while_open:
  assumes "current_question s = Some q"
    and "\<forall>raw \<in> set ls. str_strip raw = [] \<or>
           (is_topic (str_strip raw) = Inr False \<and> \<not> is_question (str_strip raw))"
  shows "\<exists>s' q'. parse_loop imgs lnks s ls = Inr s' \<and> current_question s' = Some q' \<and>
           answer q' =
             (case filter (\<lambda>raw. str_strip raw \<noteq> [] \<and> \<not> is_option (str_strip raw) \<and>
                                 is_answer (str_strip raw)) ls of
                [] \<Rightarrow> answer q
              | a # as \<Rightarrow> Some (clean_answer (str_strip (last (a # as)))))"
  using assms
proof (induction ls arbitrary: s q)
  case Nil
  then show ?case by simp
next
  case (Cons l ls)
  from Cons.prems obtain s1 q1 where s1: "loop_body imgs lnks s l = Inr s1"
    "current_question s1 = Some q1"
    "answer q1 = (if str_strip l \<noteq> [] \<and> \<not> is_option (str_strip l) \<and> is_answer (str_strip l)
              then Some (clean_answer (str_strip l)) else answer q)"
    using loop_body_while_open [of s q l imgs lnks] by auto
  from Cons.prems(2) have rest: "\<forall>raw \<in> set ls. str_strip raw = [] \<or>
           (is_topic (str_strip raw) = Inr False \<and> \<not> is_question (str_strip raw))"
    by simp
  from Cons.IH [OF s1(2) rest] obtain s' q' where s': "parse_loop imgs lnks s1 ls = Inr s'"
    "current_question s' = Some q'"
    "answer q' =
             (case filter (\<lambda>raw. str_strip raw \<noteq> [] \<and> \<not> is_option (str_strip raw) \<and>
                                 is_answer (str_strip raw)) ls of
                [] \<Rightarrow> answer q1
              | a # as \<Rightarrow> Some (clean_answer (str_strip (last (a # as)))))"
    by blast
  show ?case
    using s1(1) s1(3) s' by (auto split: list.splits)
qed

text \<open>
  Claim C2, amended. While a question is open and the lines read are neither Topic nor
  Question lines, each Answer line (a non-blank line that fails the Option test and
  passes the Answer test) overwrites the stored answer: after the lines, the open
  question's answer is the normalized text of the LAST Answer line among them, and so is
  the answer of the question a commit then appends to the output.
\<close>

theorem last_answer_wins:
  assumes "current_question s = Some q"
    and "\<forall>raw \<in> set ls. str_strip raw = [] \<or>
           (is_topic (str_strip raw) = Inr False \<and> \<not> is_question (str_strip raw))"
    and "filter (\<lambda>raw. str_strip raw \<noteq> [] \<and> \<not> is_option (str_strip raw) \<and>
                        is_answer (str_strip raw)) ls = answers"
    and "answers \<noteq> []"
  shows "\<exists>s' q'. parse_loop imgs lnks s ls = Inr s' \<and> current_question s' = Some q' \<and>
           answer q' = Some (clean_answer (str_strip (last answers))) \<and>
           (\<forall>k. \<exists>sd. save_question (structured_data s') (current_topic s') q'
                         (current_options s') imgs lnks k = Inr sd \<and>
                       answer (last (questions (last sd))) =
                         Some (clean_answer (str_strip (last answers))))"
proof -
  from parse_loop_while_open [OF assms(1) assms(2), of imgs lnks] assms(3) assms(4)
  obtain s' q' where s': "parse_loop imgs lnks s ls = Inr s'" "current_question s' = Some q'"
    "answer q' = Some (clean_answer (str_strip (last answers)))"
    by (auto split: list.splits)
  then show ?thesis
    by (simp add: save_question_Inr)
qed

theorem last_answer_wins_witness:
  "list_all (\<lambda>raw. str_strip raw = [] \<or>
                    (is_topic (str_strip raw) = Inr False \<and> \<not> is_question (str_strip raw)))
     [''Answer: a'', ''(a) opt'', [], ''Answer: b''] \<and>
   filter (\<lambda>raw. str_strip raw \<noteq> [] \<and> \<not> is_option (str_strip raw) \<and>
                   is_answer (str_strip raw))
     [''Answer: a'', ''(a) opt'', [], ''Answer: b''] = [''Answer: a'', ''Answer: b''] \<and>
   (\<exists>s' q'. parse_loop [] []
               \<lparr>structured_data = [], current_topic = None,
                current_question = Some \<lparr>question = ''x?'', options = [], answer = None,
                                         image_ref = None, video_link = None\<rparr>,
                current_options = [], question_counter = 1, image_counter = 0\<rparr>
               [''Answer: a'', ''(a) opt'', [], ''Answer: b''] = Inr s' \<and>
             current_question s' = Some q' \<and> answer q' = Some ''b'')"
proof -
  have l: "list_all (\<lambda>raw. str_strip raw = [] \<or>
                    (is_topic (str_strip raw) = Inr False \<and> \<not> is_question (str_strip raw)))
     [''Answer: a'', ''(a) opt'', [], ''Answer: b'']"
    by code_simp
  then have h2: "\<forall>raw \<in> set [''Answer: a'', ''(a) opt'', [], ''Answer: b''].
      str_strip raw = [] \<or>
      (is_topic (str_strip raw) = Inr False \<and> \<not> is_question (str_strip raw))"
    by (simp only: list_all_iff)
  have h3: "filter (\<lambda>raw. str_strip raw \<noteq> [] \<and> \<not> is_option (str_strip raw) \<and>
                   is_answer (str_strip raw))
     [''Answer: a'', ''(a) opt'', [], ''Answer: b''] = [''Answer: a'', ''Answer: b'']"
    by code_simp
  have h5: "clean_answer (str_strip ''Answer: b'') = ''b''"
    by code_simp
  have h1: "current_question
              \<lparr>structured_data = [], current_topic = None,
               current_question = Some \<lparr>question = ''x?'', options = [], answer = None,
                                        image_ref = None, video_link = None\<rparr>,
               current_options = [], question_counter = 1, image_counter = 0\<rparr> =
            Some \<lparr>question = ''x?'', options = [], answer = None,
                  image_ref = None, video_link = None\<rparr>"
    by simp
  have h4: "[''Answer: a'', ''Answer: b''] \<noteq> []"
    by simp
  from last_answer_wins [OF h1 h2 h3 h4, of "[]" "[]"] h5
  have "\<exists>s' q'. parse_loop [] []
               \<lparr>structured_data = [], current_topic = None,
                current_question = Some \<lparr>question = ''x?'', options = [], answer = None,
                                         image_ref = None, video_link = None\<rparr>,
                current_options = [], question_counter = 1, image_counter = 0\<rparr>
               [''Answer: a'', ''(a) opt'', [], ''Answer: b''] = Inr s' \<and>
             current_question s' = Some q' \<and> answer q' = Some ''b''"
    by auto
  with l h3 show ?thesis by blast
qed

section \<open>Continuation lines\<close>

text \<open>
  Claim C5 as stated fails when the open question has no options and an empty text (its
  line was only a number or a marker): \<open>x: y\<close> is a Continuation line, and it is
  discarded instead of being appended to the question's text.
\<close>

theorem continuation_counterexample:
  "is_topic ''x: y'' = Inr False \<and> \<not> is_question ''x: y'' \<and> \<not> is_option ''x: y'' \<and>
   \<not> is_answer ''x: y'' \<and>
   parse_mcqs ''1.\<newline>x: y'' [] [] =
     Inr [\<lparr>topic = ''General Questions'',
           questions = [\<lparr>question = [], options = [], answer = None,
                         image_ref = None, video_link = None\<rparr>]\<rparr>]"
  by code_simp

text \<open>
  Claim C5, amended. For a non-blank line that is neither a Topic nor a Question line:
  when no question is open the line is discarded; when a question is open and the line
  is neither an Option nor an Answer line, a space and the stripped line are appended
  to the last option if there are options, otherwise to the question's text if that text
  is not empty, and otherwise the line is discarded.
\<close>

theorem continuation_line:
  assumes "str_strip raw \<noteq> []"
    and "is_topic (str_strip raw) = Inr False"
    and "\<not> is_question (str_strip raw)"
  shows "(current_question s = None \<longrightarrow> loop_body imgs lnks s raw = Inr s) \<and>
         (\<forall>q. current_question s = Some q \<and> \<not> is_option (str_strip raw) \<and>
               \<not> is_answer (str_strip raw) \<longrightarrow>
            loop_body imgs lnks s raw =
              Inr (if current_options s \<noteq> [] then
                     s\<lparr>current_options :=
                         butlast (current_options s) @
                         [last (current_options s) @ '' '' @ str_strip raw]\<rparr>
                   else if question q \<noteq> [] then
                     s\<lparr>current_question :=
                         Some (q\<lparr>question := question q @ '' '' @ str_strip raw\<rparr>)\<rparr>
                   else s))"
  using assms by (auto simp: loop_body_def Let_def extend_last_def)

theorem continuation_line_witness:
  "str_strip ''  x: y'' \<noteq> [] \<and> is_topic (str_strip ''  x: y'') = Inr False \<and>
   \<not> is_question (str_strip ''  x: y'') \<and> \<not> is_option (str_strip ''  x: y'') \<and>
   \<not> is_answer (str_strip ''  x: y'') \<and>
   loop_body [] []
     \<lparr>structured_data = [], current_topic = None,
      current_question = Some \<lparr>question = ''a?'', options = [], answer = None,
                               image_ref = None, video_link = None\<rparr>,
      current_options = [], question_counter = 1, image_counter = 0\<rparr> ''  x: y'' =
   Inr \<lparr>structured_data = [], current_topic = None,
        current_question = Some \<lparr>question = ''a? x: y'', options = [], answer = None,
                                 image_ref = None, video_link = None\<rparr>,
        current_options = [], question_counter = 1, image_counter = 0\<rparr>"
proof -
  have h0: "str_strip ''  x: y'' = ''x: y''" by code_simp
  have h1: "str_strip ''  x: y'' \<noteq> []" by code_simp
  have h2: "is_topic (str_strip ''  x: y'') = Inr False" by code_simp
  have h3: "\<not> is_question (str_strip ''  x: y'')" by code_simp
  have h4: "\<not> is_option (str_strip ''  x: y'')" by code_simp
  have h5: "\<not> is_answer (str_strip ''  x: y'')" by code_simp
  show ?thesis
    using h0 h1 h2 h3 h4 h5
      continuation_line [OF h1 h2 h3, of
        "\<lparr>structured_data = [], current_topic = None,
          current_question = Some \<lparr>question = ''a?'', options = [], answer = None,
                                   image_ref = None, video_link = None\<rparr>,
          current_options = [], question_counter = 1, image_counter = 0\<rparr>" "[]" "[]"]
    by simp
qed

section \<open>Adjacent topic lines\<close>

text \<open>
  Claim C6 as stated fails: of two adjacent Topic lines it is the record of the second
  that receives the questions that follow, so that record is in the output.
\<close>

theorem second_topic_counterexample:
  "is_topic ''TOPIC A'' = Inr True \<and> is_topic ''TOPIC B'' = Inr True \<and>
   parse_mcqs ''TOPIC A\<newline>TOPIC B\<newline>Q1. x?'' [] [] =
     Inr [\<lparr>topic = ''B'',
           questions = [\<lparr>question = ''x?'', options = [], answer = None,
                         image_ref = None, video_link = None\<rparr>]\<rparr>]"
  by code_simp

text \<open>A commit and every step of the loop change the output list only from its last
  record on.\<close>

lemma save_question_keeps_prefix:
  "D \<noteq> [] \<Longrightarrow> \<exists>D'. save_question (P @ D) t q opts imgs lnks k = Inr (P @ D') \<and> D' \<noteq> []"
  by (simp add: save_question_Inr butlast_append)

lemma loop_body_keeps_prefix:
  assumes "structured_data s = P @ D" and "D \<noteq> []"
  shows "\<exists>s' D'. loop_body imgs lnks s raw = Inr s' \<and> structured_data s' = P @ D' \<and> D' \<noteq> []"
proof (cases "str_strip raw = []")
  case True
  with assms show ?thesis by (simp add: loop_body_def)
next
  case False
  then obtain b where b: "is_topic (str_strip raw) = Inr b"
    using is_topic_total by blast
  show ?thesis
  proof (cases "current_question s")
    case None
    with False b assms show ?thesis
      by (cases b) (auto simp: loop_body_def Let_def extend_last_def)
  next
    case (Some q)
    obtain D1 where D1: "save_question (P @ D) (current_topic s) q (current_options s) imgs lnks
                           (image_counter s) = Inr (P @ D1)" "D1 \<noteq> []"
      using save_question_keeps_prefix [OF assms(2)] by blast
    with False b assms Some show ?thesis
      by (cases b) (auto simp: loop_body_def Let_def extend_last_def)
  qed
qed

lemma parse_loop_keeps_prefix:
  assumes "structured_data s = P @ D" and "D \<noteq> []"
  shows "\<exists>s' D'. parse_loop imgs lnks s ls = Inr s' \<and> structured_data s' = P @ D' \<and> D' \<noteq> []"
  using assms
proof (induction ls arbitrary: s D)
  case Nil
  then show ?case by simp
next
  case (Cons l ls)
  obtain s1 D1 where s1: "loop_body imgs lnks s l = Inr s1" "structured_data s1 = P @ D1" "D1 \<noteq> []"
    using loop_body_keeps_prefix [OF Cons.prems] by blast
  from Cons.IH [OF s1(2) s1(3)] s1(1) show ?case by simp
qed

lemma final_commit_keeps_prefix:
  assumes "structured_data s = P @ D" and "D \<noteq> []"
  shows "\<exists>D'. final_commit imgs lnks s = Inr (P @ D') \<and> D' \<noteq> []"
proof (cases "current_question s")
  case None
  with assms show ?thesis by (simp add: final_commit_def)
next
  case (Some q)
  with assms save_question_keeps_prefix [OF assms(2)] show ?thesis
    by (simp add: final_commit_def)
qed

lemma loop_body_topic_appends:
  assumes "str_strip raw \<noteq> []" and "is_topic (str_strip raw) = Inr True"
  shows "\<exists>s' d. loop_body imgs lnks s raw = Inr s' \<and> current_question s' = None \<and>
           structured_data s' = d @ [\<lparr>topic = clean_topic (str_strip raw), questions = []\<rparr>]"
  using assms
  by (cases "current_question s") (auto simp: loop_body_def Let_def save_question_Inr)

lemma drop_empty_topics_skip:
  "drop_empty_topics (d @ \<lparr>topic = n, questions = []\<rparr> # d') = drop_empty_topics (d @ d')"
  by (simp add: drop_empty_topics_def)

text \<open>
  Claim C6, amended. When a Topic line is followed immediately by another Topic line, the
  record created by the FIRST of the two has no questions: it is the last record after
  the first line, it is still there with no questions after the whole input and the
  final commit, at least one record follows it, and the result of \<open>parse_mcqs\<close> is
  the filter applied to the other records, so it is absent from the output.
\<close>

theorem first_adjacent_topic_dropped:
  assumes "split_lines text = pre @ t1 # t2 # post"
    and "str_strip t1 \<noteq> []" and "is_topic (str_strip t1) = Inr True"
    and "str_strip t2 \<noteq> []" and "is_topic (str_strip t2) = Inr True"
  shows "\<exists>s1 d s2 d'.
           parse_loop imgs lnks initial_state (pre @ [t1]) = Inr s1 \<and>
           structured_data s1 = d @ [\<lparr>topic = clean_topic (str_strip t1), questions = []\<rparr>] \<and>
           parse_loop imgs lnks initial_state (pre @ t1 # t2 # post) = Inr s2 \<and>
           final_commit imgs lnks s2 =
             Inr (d @ \<lparr>topic = clean_topic (str_strip t1), questions = []\<rparr> # d') \<and>
           d' \<noteq> [] \<and>
           parse_mcqs text imgs lnks = Inr (drop_empty_topics (d @ d'))"
proof -
  let ?r1 = "\<lparr>topic = clean_topic (str_strip t1), questions = []\<rparr>"
  let ?r2 = "\<lparr>topic = clean_topic (str_strip t2), questions = []\<rparr>"
  obtain s0 where s0: "parse_loop imgs lnks initial_state pre = Inr s0"
    using parse_loop_total by blast
  obtain s1 d where s1: "loop_body imgs lnks s0 t1 = Inr s1" "current_question s1 = None"
    "structured_data s1 = d @ [?r1]"
    using loop_body_topic_appends [OF assms(2) assms(3)] by blast
  have run1: "parse_loop imgs lnks initial_state (pre @ [t1]) = Inr s1"
    using s0 s1(1) by (simp add: parse_loop_append)
  obtain s1' where s1': "loop_body imgs lnks s1 t2 = Inr s1'"
    "structured_data s1' = (d @ [?r1]) @ [?r2]"
    using assms(4) assms(5) s1(2) s1(3) by (simp add: loop_body_def Let_def)
  obtain s2 D where s2: "parse_loop imgs lnks s1' post = Inr s2"
    "structured_data s2 = (d @ [?r1]) @ D" "D \<noteq> []"
    using parse_loop_keeps_prefix [OF s1'(2)] by blast
  have run2: "parse_loop imgs lnks initial_state (pre @ t1 # t2 # post) = Inr s2"
    using s0 s1(1) s1'(1) s2(1) by (simp add: parse_loop_append)
  obtain d' where d': "final_commit imgs lnks s2 = Inr ((d @ [?r1]) @ d')" "d' \<noteq> []"
    using final_commit_keeps_prefix [OF s2(2) s2(3)] by blast
  have "parse_mcqs text imgs lnks = Inr (drop_empty_topics (d @ d'))"
    using assms(1) run2 d'(1)
    by (simp add: parse_mcqs_def parse_lines_def drop_empty_topics_skip)
  with run1 s1(3) run2 d' show ?thesis by auto
qed

theorem first_adjacent_topic_dropped_witness:
  "split_lines ''Q1. a?\<newline>TOPIC A\<newline>TOPIC B\<newline>Q2. x?'' =
     [''Q1. a?''] @ ''TOPIC A'' # ''TOPIC B'' # [''Q2. x?''] \<and>
   str_strip ''TOPIC A'' \<noteq> [] \<and> is_topic (str_strip ''TOPIC A'') = Inr True \<and>
   str_strip ''TOPIC B'' \<noteq> [] \<and> is_topic (str_strip ''TOPIC B'') = Inr True \<and>
   (\<exists>s1 d s2 d'.
           parse_loop [] [] initial_state ([''Q1. a?''] @ [''TOPIC A'']) = Inr s1 \<and>
           structured_data s1 = d @ [\<lparr>topic = clean_topic (str_strip ''TOPIC A''), questions = []\<rparr>] \<and>
           parse_loop [] [] initial_state ([''Q1. a?''] @ ''TOPIC A'' # ''TOPIC B'' # [''Q2. x?'']) = Inr s2 \<and>
           final_commit [] [] s2 =
             Inr (d @ \<lparr>topic = clean_topic (str_strip ''TOPIC A''), questions = []\<rparr> # d') \<and>
           d' \<noteq> [] \<and>
           parse_mcqs ''Q1. a?\<newline>TOPIC A\<newline>TOPIC B\<newline>Q2. x?'' [] [] = Inr (drop_empty_topics (d @ d')))"
proof -
  have h1: "split_lines ''Q1. a?\<newline>TOPIC A\<newline>TOPIC B\<newline>Q2. x?'' =
     [''Q1. a?''] @ ''TOPIC A'' # ''TOPIC B'' # [''Q2. x?'']"
    by code_simp
  have h2: "str_strip ''TOPIC A'' \<noteq> []" by code_simp
  have h3: "is_topic (str_strip ''TOPIC A'') = Inr True" by code_simp
  have h4: "str_strip ''TOPIC B'' \<noteq> []" by code_simp
  have h5: "is_topic (str_strip ''TOPIC B'') = Inr True" by code_simp
  show ?thesis
    using h1 h2 h3 h4 h5 first_adjacent_topic_dropped [OF h1 h2 h3 h4 h5, of "[]" "[]"]
    by blast
qed

section \<open>Normalizing twice\<close>

text \<open>
  Claim C7 as stated fails for each of the three normalizers: one prefix is removed at a
  time, so text that begins with two markers loses the second one on the second pass.
\<close>

theorem clean_idempotent_counterexample:
  "clean_option ''(a) (b) x'' = ''(b) x'' \<and> clean_option (clean_option ''(a) (b) x'') = ''x'' \<and>
   clean_question ''Q1. Q2. x'' = ''Q2. x'' \<and> clean_question (clean_question ''Q1. Q2. x'') = ''x'' \<and>
   clean_answer ''Answer: ans. b'' = ''ans. b'' \<and> clean_answer (clean_answer ''Answer: ans. b'') = ''b''"
  by code_simp

lemma dropWhile_keeps_last:
  "xs \<noteq> [] \<Longrightarrow> \<not> P (last xs) \<Longrightarrow> dropWhile P xs \<noteq> [] \<and> last (dropWhile P xs) = last xs"
  by (induction xs) (auto split: if_splits)

lemma dropWhile_head: "dropWhile P xs \<noteq> [] \<Longrightarrow> \<not> P (hd (dropWhile P xs))"
  by (simp add: hd_dropWhile)

lemma str_strip_idem: "str_strip (str_strip s) = str_strip s"
proof -
  let ?t = "dropWhile isspace s"
  let ?u = "dropWhile isspace (rev ?t)"
  have u: "?u = [] \<or> \<not> isspace (hd ?u)"
    using dropWhile_head [of isspace "rev ?t"] by blast
  have head_ok: "dropWhile isspace (rev ?u) = rev ?u"
  proof (cases "?t = []")
    case True
    show ?thesis unfolding True by simp
  next
    case False
    then have "\<not> isspace (hd ?t)"
      using dropWhile_head [of isspace s] by blast
    with False have nl: "\<not> isspace (last (rev ?t))" "rev ?t \<noteq> []"
      by (simp_all add: last_rev)
    then have "?u \<noteq> []" "last ?u = last (rev ?t)"
      using dropWhile_keeps_last [of "rev ?t" isspace] by blast+
    then have "rev ?u \<noteq> []" "\<not> isspace (hd (rev ?u))"
      using nl(1) by (simp_all add: hd_rev)
    then show ?thesis
      by (simp add: dropWhile_eq_self_iff)
  qed
  have tail_ok: "dropWhile isspace ?u = ?u"
    using u by (simp add: dropWhile_eq_self_iff)
  show ?thesis
    unfolding str_strip_def by (simp add: head_ok tail_ok)
qed

lemma re_sub_empty_no_match: "\<not> re_match p s \<Longrightarrow> re_sub_empty p s = s"
  by (simp add: re_match_def re_sub_empty_def)

text \<open>
  Claim C7, amended. For every string \<open>x\<close>: when the normalized option does not match
  the option prefix pattern, normalizing it again changes nothing; likewise for the
  normalized question when it matches neither of the two question prefix patterns, and
  for the normalized answer when it does not match the answer prefix pattern.
\<close>

theorem clean_idempotent_without_prefix:
  "(\<not> re_match option_prefix (clean_option x) \<longrightarrow>
      clean_option (clean_option x) = clean_option x) \<and>
   (\<not> re_match question_prefix (clean_question x) \<and>
    \<not> re_match number_prefix (clean_question x) \<longrightarrow>
      clean_question (clean_question x) = clean_question x) \<and>
   (\<not> re_match answer_prefix (clean_answer x) \<longrightarrow>
      clean_answer (clean_answer x) = clean_answer x)"
proof (intro conjI impI)
  assume "\<not> re_match option_prefix (clean_option x)"
  then have "clean_option (clean_option x) = str_strip (clean_option x)"
    by (simp add: re_sub_empty_no_match clean_option_def [of "clean_option x"])
  then show "clean_option (clean_option x) = clean_option x"
    by (simp add: clean_option_def str_strip_idem)
next
  assume "\<not> re_match question_prefix (clean_question x) \<and>
          \<not> re_match number_prefix (clean_question x)"
  then have "clean_question (clean_question x) = str_strip (clean_question x)"
    by (simp add: re_sub_empty_no_match clean_question_def [of "clean_question x"])
  then show "clean_question (clean_question x) = clean_question x"
    by (simp add: clean_question_def str_strip_idem)
next
  assume "\<not> re_match answer_prefix (clean_answer x)"
  then have "clean_answer (clean_answer x) = str_strip (clean_answer x)"
    by (simp add: re_sub_empty_no_match clean_answer_def [of "clean_answer x"])
  then show "clean_answer (clean_answer x) = clean_answer x"
    by (simp add: clean_answer_def str_strip_idem)
qed

theorem clean_idempotent_without_prefix_witness:
  "\<not> re_match option_prefix (clean_option ''(a) Paris'') \<and>
   clean_option (clean_option ''(a) Paris'') = clean_option ''(a) Paris'' \<and>
   \<not> re_match question_prefix (clean_question ''Q1. What is speed?'') \<and>
   \<not> re_match number_prefix (clean_question ''Q1. What is speed?'') \<and>
   clean_question (clean_question ''Q1. What is speed?'') = clean_question ''Q1. What is speed?'' \<and>
   \<not> re_match answer_prefix (clean_answer ''Answer: b'') \<and>
   clean_answer (clean_answer ''Answer: b'') = clean_answer ''Answer: b''"
proof -
  have h1: "\<not> re_match option_prefix (clean_option ''(a) Paris'')"
    by code_simp
  have h2: "\<not> re_match question_prefix (clean_question ''Q1. What is speed?'') \<and>
            \<not> re_match number_prefix (clean_question ''Q1. What is speed?'')"
    by code_simp
  have h3: "\<not> re_match answer_prefix (clean_answer ''Answer: b'')"
    by code_simp
  show ?thesis
    using h1 h2 h3 clean_idempotent_without_prefix [of "''(a) Paris''"]
      clean_idempotent_without_prefix [of "''Q1. What is speed?''"]
      clean_idempotent_without_prefix [of "''Answer: b''"]
    by blast
qed

section \<open>Failures of the document reader\<close>

text \<open>
  Claim C9 as stated fails: when opening the document or reading a page raises, the
  result is the empty list, the same value as for a document without questions.
\<close>

theorem reader_failure_counterexample:
  "extract_mcqs_from_pdf (Inl ReaderError) ''/tmp'' = Inr [] \<and>
   extract_mcqs_from_pdf
     (Inr \<lparr>pages = [\<lparr>get_text = Inl ReaderError, get_images = Inr [], get_links = Inr []\<rparr>],
           close = Inr ()\<rparr>) ''/tmp'' = Inr [] \<and>
   extract_mcqs_from_pdf
     (Inr \<lparr>pages = [\<lparr>get_text = Inr ''no questions here'', get_images = Inr [],
                      get_links = Inr []\<rparr>],
           close = Inr ()\<rparr>) ''/tmp'' = Inr []"
  by code_simp

lemma read_pages_fails:
  "list_ex (\<lambda>p. isl (get_text p)) ps \<Longrightarrow> \<exists>e. read_pages td n ps acc = Inl e"
proof (induction ps arbitrary: n acc)
  case Nil
  then show ?case by simp
next
  case (Cons p ps)
  obtain ft im li where acc: "acc = (ft, im, li)"
    by (cases acc) auto
  show ?case
  proof (cases "get_text p")
    case (Inl e)
    then show ?thesis by (simp add: acc)
  next
    case (Inr t)
    with Cons.prems have "list_ex (\<lambda>p. isl (get_text p)) ps" by simp
    from Cons.IH [OF this] show ?thesis by (simp add: acc Inr)
  qed
qed

text \<open>
  Claim C9, amended. When opening the document fails, or reading the text of some page
  fails, or closing the document fails, \<open>extract_mcqs_from_pdf\<close> catches the exception
  and returns the empty list; its caller cannot tell this from "no MCQs found".
\<close>

theorem reader_failure_gives_empty:
  assumes "(\<exists>e. opened = Inl e) \<or>
           (\<exists>doc. opened = Inr doc \<and>
                  (list_ex (\<lambda>p. isl (get_text p)) (pages doc) \<or> isl (close doc)))"
  shows "extract_mcqs_from_pdf opened temp_dir = Inr []"
  using assms
proof (elim disjE exE conjE)
  fix e assume "opened = Inl e"
  then show ?thesis by (simp add: extract_mcqs_from_pdf_def)
next
  fix doc assume doc: "opened = Inr doc" and "list_ex (\<lambda>p. isl (get_text p)) (pages doc)"
  then obtain e where "read_pages temp_dir 0 (pages doc) ([], [], []) = Inl e"
    using read_pages_fails by blast
  with doc show ?thesis by (simp add: extract_mcqs_from_pdf_def)
next
  fix doc assume doc: "opened = Inr doc" and "isl (close doc)"
  then show ?thesis
    by (auto simp: extract_mcqs_from_pdf_def isl_def split: sum.splits prod.splits)
qed

theorem reader_failure_gives_empty_witness:
  "((\<exists>e. (Inr \<lparr>pages = [\<lparr>get_text = Inr ''1. a?'', get_images = Inr [], get_links = Inr []\<rparr>,
                        \<lparr>get_text = Inl ReaderError, get_images = Inr [], get_links = Inr []\<rparr>],
              close = Inr ()\<rparr> :: error + pdf_document) = Inl e) \<or>
    (\<exists>doc. Inr \<lparr>pages = [\<lparr>get_text = Inr ''1. a?'', get_images = Inr [], get_links = Inr []\<rparr>,
                        \<lparr>get_text = Inl ReaderError, get_images = Inr [], get_links = Inr []\<rparr>],
              close = Inr ()\<rparr> = Inr doc \<and>
           (list_ex (\<lambda>p. isl (get_text p)) (pages doc) \<or> isl (close doc)))) \<and>
   extract_mcqs_from_pdf
     (Inr \<lparr>pages = [\<lparr>get_text = Inr ''1. a?'', get_images = Inr [], get_links = Inr []\<rparr>,
                     \<lparr>get_text = Inl ReaderError, get_images = Inr [], get_links = Inr []\<rparr>],
           close = Inr ()\<rparr>) ''/tmp'' = Inr []"
proof -
  have h: "(\<exists>e. (Inr \<lparr>pages = [\<lparr>get_text = Inr ''1. a?'', get_images = Inr [], get_links = Inr []\<rparr>,
                        \<lparr>get_text = Inl ReaderError, get_images = Inr [], get_links = Inr []\<rparr>],
              close = Inr ()\<rparr> :: error + pdf_document) = Inl e) \<or>
    (\<exists>doc. Inr \<lparr>pages = [\<lparr>get_text = Inr ''1. a?'', get_images = Inr [], get_links = Inr []\<rparr>,
                        \<lparr>get_text = Inl ReaderError, get_images = Inr [], get_links = Inr []\<rparr>],
              close = Inr ()\<rparr> = Inr doc \<and>
           (list_ex (\<lambda>p. isl (get_text p)) (pages doc) \<or> isl (close doc)))"
    by simp
  show ?thesis
    using h reader_failure_gives_empty [OF h, of "''/tmp''"] by blast
qed

end
